theory Spec2Isabelle
  imports Main "HOL-Library.AList" "HOL-Library.Sublist"
begin

section \<open>Text and characters\<close>

text \<open>
  A Python \<open>str\<close> is a sequence of Unicode code points, and \<open>len\<close> counts code points.
  A character is modelled by its code point, the number \<open>ord(char)\<close> returns, so
  \<open>ascii_val = ord(char)\<close> is the character itself. Every code point is a number below
  \<open>0x110000\<close>; nothing below depends on that bound.
\<close>

type_synonym codepoint = nat

type_synonym pystr = "codepoint list"

text \<open>A string literal of the source, written with its ASCII characters.\<close>

definition lit :: "string \<Rightarrow> pystr" where
  "lit s = map of_char s"

section \<open>The cleaning loop of \<open>clean_text_file\<close>\<close>

text \<open>
  Lines 33 to 40 of \<open>vcleaner.py\<close>:
  \<^verbatim>\<open>
  cleaned = ""
  hidden_count = 0
  for char in content:
      ascii_val = ord(char)
      if (32 <= ascii_val <= 126) or ascii_val in [9, 10, 13]:
          cleaned += char
      else:
          hidden_count += 1
  \<close>
  The loop is a recursion over \<open>content\<close> that passes the two variables along.
\<close>

fun clean_loop :: "pystr \<Rightarrow> pystr \<times> nat \<Rightarrow> pystr \<times> nat" where
  "clean_loop [] (cleaned, hidden_count) = (cleaned, hidden_count)"
| "clean_loop (char # content) (cleaned, hidden_count) =
     (let ascii_val = char in
      if (32 \<le> ascii_val \<and> ascii_val \<le> 126) \<or> ascii_val \<in> set [9, 10, 13]
      then clean_loop content (cleaned @ [char], hidden_count)
      else clean_loop content (cleaned, hidden_count + 1))"

definition clean_chars :: "pystr \<Rightarrow> pystr \<times> nat" where
  "clean_chars content = clean_loop content ([], 0)"

section \<open>The tallying loop of \<open>show_hidden_chars\<close>\<close>

text \<open>
  Lines 71 to 80:
  \<^verbatim>\<open>
  hidden_chars = {}
  total_hidden = 0
  for char in content:
      ascii_val = ord(char)
      if not ((32 <= ascii_val <= 126) or ascii_val in [9, 10, 13]):
          if char not in hidden_chars:
              hidden_chars[char] = 0
          hidden_chars[char] += 1
          total_hidden += 1
  \<close>
  A Python dictionary keeps its keys in insertion order, and the report iterates over it,
  so the dictionary is an association list: storing under a new key appends the entry,
  storing under an old key replaces the value in place (\<open>AList.update\<close>). Reading a key
  that is absent raises \<open>KeyError\<close>, and the loop stops with it.
\<close>

type_synonym tally = "(codepoint \<times> nat) list"

definition dict_contains :: "tally \<Rightarrow> codepoint \<Rightarrow> bool" where
  "dict_contains d k = (k \<in> set (map fst d))"

definition dict_set :: "tally \<Rightarrow> codepoint \<Rightarrow> nat \<Rightarrow> tally" where
  "dict_set d k v = AList.update k v d"

text \<open>\<open>d[k]\<close> as a read: \<open>Inl k\<close> is the \<open>KeyError\<close> for the key \<open>k\<close>.\<close>

definition dict_get :: "tally \<Rightarrow> codepoint \<Rightarrow> codepoint + nat" where
  "dict_get d k = (case map_of d k of None \<Rightarrow> Inl k | Some v \<Rightarrow> Inr v)"

text \<open>
  The three statements under the test: \<open>hidden_chars[char] += 1\<close> reads the entry and
  stores the sum.
\<close>

definition tally_char :: "codepoint \<Rightarrow> tally \<Rightarrow> codepoint + tally" where
  "tally_char char hidden_chars =
     (let d = (if \<not> dict_contains hidden_chars char then dict_set hidden_chars char 0
               else hidden_chars)
      in case dict_get d char of
           Inl k \<Rightarrow> Inl k
         | Inr n \<Rightarrow> Inr (dict_set d char (n + 1)))"

fun show_loop :: "pystr \<Rightarrow> tally \<times> nat \<Rightarrow> codepoint + tally \<times> nat" where
  "show_loop [] (hidden_chars, total_hidden) = Inr (hidden_chars, total_hidden)"
| "show_loop (char # content) (hidden_chars, total_hidden) =
     (let ascii_val = char in
      if \<not> ((32 \<le> ascii_val \<and> ascii_val \<le> 126) \<or> ascii_val \<in> set [9, 10, 13])
      then (case tally_char char hidden_chars of
              Inl k \<Rightarrow> Inl k
            | Inr d \<Rightarrow> show_loop content (d, total_hidden + 1))
      else show_loop content (hidden_chars, total_hidden))"

definition tally_chars :: "pystr \<Rightarrow> codepoint + tally \<times> nat" where
  "tally_chars content = show_loop content ([], 0)"

section \<open>Counting words\<close>

text \<open>
  \<^verbatim>\<open>
  def count_words(text: str) -> int:
      words = text.split()
      return len(words)
  \<close>
  \<open>str.split()\<close> with no argument is Python's own: it skips a run of whitespace, takes
  the characters up to the next whitespace as one word, and repeats until the text ends.
  Whitespace is what \<open>str.isspace\<close> accepts: the code points \<open>9\<close> to \<open>13\<close>, \<open>28\<close> to
  \<open>32\<close>, \<open>0x85\<close>, \<open>0xA0\<close>, \<open>0x1680\<close>, \<open>0x2000\<close> to \<open>0x200A\<close>, \<open>0x2028\<close>, \<open>0x2029\<close>,
  \<open>0x202F\<close>, \<open>0x205F\<close> and \<open>0x3000\<close>.
\<close>

definition isspace :: "codepoint \<Rightarrow> bool" where
  "isspace c \<longleftrightarrow>
     (9 \<le> c \<and> c \<le> 13) \<or> (28 \<le> c \<and> c \<le> 32) \<or> c = 133 \<or> c = 160 \<or> c = 5760 \<or>
     (8192 \<le> c \<and> c \<le> 8202) \<or> c = 8232 \<or> c = 8233 \<or> c = 8239 \<or> c = 8287 \<or> c = 12288"

function str_split :: "pystr \<Rightarrow> pystr list" where
  "str_split text =
     (case dropWhile isspace text of
        [] \<Rightarrow> []
      | c # rest \<Rightarrow>
          (c # takeWhile (\<lambda>x. \<not> isspace x) rest) # str_split (dropWhile (\<lambda>x. \<not> isspace x) rest))"
  by pat_completeness auto
termination
proof (relation "measure length")
  show "wf (measure length)" by simp
next
  fix s :: pystr and c rest
  assume "dropWhile isspace s = c # rest"
  then have "length s \<ge> Suc (length rest)"
    by (metis length_Cons length_dropWhile_le)
  moreover have "length (dropWhile (\<lambda>x. \<not> isspace x) rest) \<le> length rest"
    by (rule length_dropWhile_le)
  ultimately show "(dropWhile (\<lambda>x. \<not> isspace x) rest, s) \<in> measure length"
    by simp
qed

declare str_split.simps [simp del]

definition count_words :: "pystr \<Rightarrow> nat" where
  "count_words text = (let words = str_split text in length words)"

section \<open>Files, standard output and exceptions\<close>

text \<open>
  The two operations read a file, print, and (cleaning) write a file. The world they run
  in holds the text of each file, the faults the operating system answers an \<open>open\<close>
  with, and what was printed so far.

  \<^item> \<open>files w p\<close> is the text that \<open>open(p, "r", encoding="utf-8", errors="ignore")\<close>
    followed by \<open>read()\<close> returns: the decoded characters, undecodable bytes dropped.
    \<open>None\<close> is a path that does not exist.
  \<^item> \<open>read_fault w p\<close> and \<open>write_fault w p\<close> are the exceptions that opening \<open>p\<close> for
    reading or for writing raises (a directory, a missing permission, a missing parent
    directory). \<open>OSError m\<close> stands for every \<open>OSError\<close> that is not a
    \<open>FileNotFoundError\<close>, with \<open>m\<close> its \<open>str\<close>.
  \<^item> \<open>stdout w\<close> is the text printed so far.
\<close>

type_synonym path = pystr

datatype os_error = FileNotFoundError | OSError pystr

text \<open>What a \<open>try\<close> block can raise: an error of an \<open>open\<close>, or the \<open>KeyError\<close> of a
  dictionary read.\<close>

datatype exn = OS os_error | KeyError codepoint

record world =
  files :: "path \<rightharpoonup> pystr"
  read_fault :: "path \<rightharpoonup> os_error"
  write_fault :: "path \<rightharpoonup> os_error"
  stdout :: pystr

definition open_read :: "world \<Rightarrow> path \<Rightarrow> os_error + pystr" where
  "open_read w p =
     (case read_fault w p of
        Some e \<Rightarrow> Inl e
      | None \<Rightarrow> (case files w p of None \<Rightarrow> Inl FileNotFoundError | Some t \<Rightarrow> Inr t))"

text \<open>\<open>open(p, "w")\<close> and \<open>f.write(t)\<close>: the file is created or replaced.\<close>

definition open_write :: "world \<Rightarrow> path \<Rightarrow> pystr \<Rightarrow> os_error + world" where
  "open_write w p t =
     (case write_fault w p of
        Some e \<Rightarrow> Inl e
      | None \<Rightarrow> Inr (w\<lparr>files := (files w)(p \<mapsto> t)\<rparr>))"

text \<open>\<open>print(s)\<close> writes \<open>s\<close> and a line feed.\<close>

definition print :: "world \<Rightarrow> pystr \<Rightarrow> world" where
  "print w s = w\<lparr>stdout := stdout w @ s @ [10]\<rparr>"

text \<open>\<open>str(n)\<close> of a number that is not negative: its decimal digits.\<close>

fun str_nat :: "nat \<Rightarrow> pystr" where
  "str_nat n = (if n < 10 then [48 + n] else str_nat (n div 10) @ [48 + n mod 10])"

declare str_nat.simps [simp del]

section \<open>\<open>clean_text_file\<close>\<close>

text \<open>The body of the \<open>try\<close> block, lines 24 to 52: the exception it raises, if any, and
  the world it leaves.\<close>

definition clean_try :: "path \<Rightarrow> path \<Rightarrow> world \<Rightarrow> os_error option \<times> world" where
  "clean_try input_file output_file w =
     (case open_read w input_file of
        Inl e \<Rightarrow> (Some e, w)
      | Inr content \<Rightarrow>
          (let original_length = length content;
               original_words = count_words content;
               w1 = print w ([10] @ lit ''Original length: '' @ str_nat original_length
                                @ lit '' characters'');
               w2 = print w1 (lit ''Number of Words: '' @ str_nat original_words);
               (cleaned, hidden_count) = clean_chars content;
               cleaned_length = length cleaned;
               cleaned_words = count_words cleaned;
               hidden_removed = hidden_count
           in case open_write w2 output_file cleaned of
                Inl e \<Rightarrow> (Some e, w2)
              | Inr w3 \<Rightarrow>
                  (let w4 = print w3 (lit ''Cleaned Length: '' @ str_nat cleaned_length
                                        @ lit '' characters'');
                       w5 = print w4 (lit ''Invisible characters removed: ''
                                        @ str_nat hidden_removed);
                       w6 = print w5 (lit ''Words count: '' @ str_nat cleaned_words);
                       w7 = print w6 (lit ''Clean version of file saved to: '' @ output_file
                                        @ [10])
                   in (None, w7))))"

text \<open>The message of both \<open>except FileNotFoundError\<close> handlers; \<open>39\<close> is the quote.\<close>

definition not_found_message :: "path \<Rightarrow> pystr" where
  "not_found_message input_file =
     lit ''Error: File '' @ [39] @ input_file @ [39] @ lit '' not found!''"

text \<open>
  The function with its handlers, lines 54 to 57. The result is the exception that leaves
  the function (\<open>None\<close> when it returns) and the world.
\<close>

definition clean_text_file :: "path \<Rightarrow> path \<Rightarrow> world \<Rightarrow> exn option \<times> world" where
  "clean_text_file input_file output_file w =
     (case clean_try input_file output_file w of
        (None, w') \<Rightarrow> (None, w')
      | (Some FileNotFoundError, w') \<Rightarrow> (None, print w' (not_found_message input_file))
      | (Some (OSError e), w') \<Rightarrow> (None, print w' (lit ''Error: '' @ e)))"

section \<open>\<open>show_hidden_chars\<close>\<close>

text \<open>
  \<open>sorted(xs, key=key, reverse=True)\<close> is Python's own: the sort is stable, and with
  \<open>reverse=True\<close> elements of equal key keep their order too. The list is reversed,
  sorted upwards by a stable sort, and reversed again.
\<close>

definition sorted_reverse :: "('a \<Rightarrow> nat) \<Rightarrow> 'a list \<Rightarrow> 'a list" where
  "sorted_reverse key xs = rev (sort_key key (rev xs))"

definition hidden_line :: "codepoint \<times> nat \<Rightarrow> pystr" where
  "hidden_line item =
     (case item of (char, count) \<Rightarrow>
        lit ''  Find (ASCII '' @ str_nat char @ lit ''): '' @ str_nat count @ lit '' characters'')"

text \<open>The \<open>for\<close> loop of lines 85 to 88 over the sorted items.\<close>

fun print_items :: "world \<Rightarrow> (codepoint \<times> nat) list \<Rightarrow> world" where
  "print_items w [] = w"
| "print_items w (item # items) = print_items (print w (hidden_line item)) items"

definition show_try :: "path \<Rightarrow> world \<Rightarrow> exn option \<times> world" where
  "show_try input_file w =
     (case open_read w input_file of
        Inl e \<Rightarrow> (Some (OS e), w)
      | Inr content \<Rightarrow>
          (let original_length = length content;
               original_words = count_words content
           in case tally_chars content of
                Inl k \<Rightarrow> (Some (KeyError k), w)
              | Inr (hidden_chars, total_hidden) \<Rightarrow>
                  (let w1 = print w [];
                       w2 = (if hidden_chars \<noteq> []
                             then (let w3 = print w1 (lit ''Invisible characters found:'');
                                       w4 = print_items w3 (sorted_reverse snd hidden_chars)
                                   in print w4 (lit '' Total Invisible Characters: ''
                                                  @ str_nat total_hidden @ lit '' characters''))
                             else print w1 (lit ''No hidden characters found! Your file is clean''));
                       w5 = print w2 (lit ''  Original Length: '' @ str_nat original_length);
                       w6 = print w5 (lit ''  Number of Words: '' @ str_nat original_words @ [10])
                   in (None, w6))))"

text \<open>The only handler is \<open>except FileNotFoundError\<close>, lines 96 and 97: every other
  exception leaves the function.\<close>

definition show_hidden_chars :: "path \<Rightarrow> world \<Rightarrow> exn option \<times> world" where
  "show_hidden_chars input_file w =
     (case show_try input_file w of
        (Some (OS FileNotFoundError), w') \<Rightarrow> (None, print w' (not_found_message input_file))
      | (r, w') \<Rightarrow> (r, w'))"

section \<open>The classification of the specification\<close>

text \<open>
  The specification names the test of both loops a classification with two tags. This
  definition follows the specification's words; the loops above follow the source.
\<close>

datatype tag = Allowed | Hidden

definition classify :: "codepoint \<Rightarrow> tag" where
  "classify c = (if (32 \<le> c \<and> c \<le> 126) \<or> c = 9 \<or> c = 10 \<or> c = 13 then Allowed else Hidden)"

definition allowed :: "codepoint \<Rightarrow> bool" where
  "allowed c = (classify c = Allowed)"

definition hidden :: "codepoint \<Rightarrow> bool" where
  "hidden c = (classify c = Hidden)"

text \<open>The distinct elements of a list, in the order in which each occurs first.\<close>

definition first_seen :: "'a list \<Rightarrow> 'a list" where
  "first_seen xs = rev (remdups (rev xs))"

text \<open>What one hidden character does to the tally, as a single update.\<close>

definition bump :: "tally \<Rightarrow> codepoint \<Rightarrow> tally" where
  "bump t c = AList.update c (case map_of t c of None \<Rightarrow> 1 | Some n \<Rightarrow> n + 1) t"

text \<open>
  The number of words as the specification has it: the maximal runs of characters that
  are not whitespace, counted at the first character of each. The flag says whether the
  character before is whitespace (or the text starts here).
\<close>

fun word_starts :: "bool \<Rightarrow> pystr \<Rightarrow> nat" where
  "word_starts b [] = 0"
| "word_starts b (c # cs) =
     (if isspace c then word_starts True cs
      else (if b then 1 else 0) + word_starts False cs)"

text \<open>
  What a run of \<open>clean_text_file\<close> that reads and writes prints, lines 30, 31 and 49 to
  52, as a function of the six values the source formats.
\<close>

definition clean_report :: "nat \<Rightarrow> nat \<Rightarrow> nat \<Rightarrow> nat \<Rightarrow> nat \<Rightarrow> path \<Rightarrow> pystr" where
  "clean_report original_length original_words cleaned_length hidden_removed cleaned_words
     output_file =
     [10] @ lit ''Original length: '' @ str_nat original_length @ lit '' characters'' @ [10]
     @ lit ''Number of Words: '' @ str_nat original_words @ [10]
     @ lit ''Cleaned Length: '' @ str_nat cleaned_length @ lit '' characters'' @ [10]
     @ lit ''Invisible characters removed: '' @ str_nat hidden_removed @ [10]
     @ lit ''Words count: '' @ str_nat cleaned_words @ [10]
     @ lit ''Clean version of file saved to: '' @ output_file @ [10, 10]"

text \<open>
  What a run of \<open>show_hidden_chars\<close> prints when the dictionary is not empty, lines 82 to
  94: the heading, one line for each item in the given order, the total, and the two
  closing lines.
\<close>

definition show_report :: "(codepoint \<times> nat) list \<Rightarrow> nat \<Rightarrow> nat \<Rightarrow> nat \<Rightarrow> pystr" where
  "show_report items total_hidden original_length original_words =
     [10] @ lit ''Invisible characters found:'' @ [10]
     @ concat (map (\<lambda>item. hidden_line item @ [10]) items)
     @ lit '' Total Invisible Characters: '' @ str_nat total_hidden @ lit '' characters'' @ [10]
     @ lit ''  Original Length: '' @ str_nat original_length @ [10]
     @ lit ''  Number of Words: '' @ str_nat original_words @ [10, 10]"

section \<open>Properties of the cleaning loop\<close>

lemma allowed_iff: "allowed c \<longleftrightarrow> (32 \<le> c \<and> c \<le> 126) \<or> c = 9 \<or> c = 10 \<or> c = 13"
  by (simp add: allowed_def classify_def)

lemma clean_loop_filter:
  "clean_loop content (cleaned, n) =
     (cleaned @ filter allowed content, n + length (filter (\<lambda>c. \<not> allowed c) content))"
  by (induction content arbitrary: cleaned n) (auto simp: allowed_iff)

lemma clean_chars_filter:
  "clean_chars content = (filter allowed content, length (filter (\<lambda>c. \<not> allowed c) content))"
  by (simp add: clean_chars_def clean_loop_filter)

section \<open>Properties of the tallying loop and of the sort\<close>

lemma hidden_iff: "hidden c \<longleftrightarrow> \<not> allowed c"
  by (simp add: hidden_def allowed_def classify_def)

lemma tally_char_bump: "tally_char c t = Inr (bump t c)"
proof (cases "map_of t c")
  case None
  then have "c \<notin> set (map fst t)"
    by (simp add: map_of_eq_None_iff)
  with None show ?thesis
    by (simp add: tally_char_def dict_contains_def dict_set_def dict_get_def bump_def
        update_conv')
next
  case (Some n)
  then have "c \<in> set (map fst t)"
    by (metis map_of_eq_None_iff option.distinct(1) set_map)
  with Some show ?thesis
    by (simp add: tally_char_def dict_contains_def dict_set_def dict_get_def bump_def)
qed

lemma show_loop_foldl:
  "show_loop content (t, n) =
     Inr (foldl bump t (filter hidden content), n + length (filter hidden content))"
  by (induction content arbitrary: t n)
    (auto simp: tally_char_bump hidden_iff allowed_iff)

lemma keys_bump:
  "map fst (bump t c) = (if c \<in> set (map fst t) then map fst t else map fst t @ [c])"
  unfolding bump_def by (simp add: update_keys)

lemma sum_update_present:
  "map_of (t::tally) c = Some n \<Longrightarrow>
     sum_list (map snd (AList.update c (Suc n) t)) = Suc (sum_list (map snd t))"
  by (induction t) (auto split: if_splits)

lemma sum_update_absent:
  "map_of (t::tally) c = None \<Longrightarrow>
     sum_list (map snd (AList.update c v t)) = sum_list (map snd t) + v"
  by (induction t) (auto split: if_splits)

lemma sum_bump: "sum_list (map snd (bump t c)) = sum_list (map snd t) + 1"
  unfolding bump_def
  by (cases "map_of t c") (simp_all add: sum_update_present sum_update_absent)

lemma sum_foldl_bump:
  "sum_list (map snd (foldl bump t xs)) = sum_list (map snd t) + length xs"
  by (induction xs arbitrary: t) (simp_all add: sum_bump)

lemma distinct_bump: "distinct (map fst t) \<Longrightarrow> distinct (map fst (bump t c))"
  unfolding bump_def by (rule distinct_update)

lemma distinct_foldl_bump:
  "distinct (map fst t) \<Longrightarrow> distinct (map fst (foldl bump t xs))"
  by (induction xs arbitrary: t) (simp_all add: distinct_bump)

lemma remdups_append_mem: "x \<in> set ys \<Longrightarrow> remdups (xs @ x # ys) = remdups (xs @ ys)"
  by (induction xs) auto

lemma keys_foldl_bump:
  "distinct (map fst t) \<Longrightarrow> map fst (foldl bump t xs) = first_seen (map fst t @ xs)"
proof (induction xs arbitrary: t)
  case Nil
  then have "rev (remdups (rev (map fst t))) = map fst t"
    by (metis distinct_remdups_id distinct_rev rev_rev_ident)
  then show ?case by (simp only: first_seen_def foldl_Nil append_Nil2)
next
  case (Cons x xs)
  have d: "distinct (map fst (bump t x))"
    using Cons.prems by (rule distinct_bump)
  show ?case
  proof (cases "x \<in> set (map fst t)")
    case True
    then have "remdups (rev xs @ x # rev (map fst t)) = remdups (rev xs @ rev (map fst t))"
      by (intro remdups_append_mem) simp
    with True Cons.IH [OF d] show ?thesis
      by (simp add: keys_bump first_seen_def)
  next
    case False
    with Cons.IH [OF d] show ?thesis
      by (simp add: keys_bump first_seen_def)
  qed
qed

lemma map_of_bump:
  "map_of (bump t c) k =
     (if k = c then Some (case map_of t c of None \<Rightarrow> 1 | Some n \<Rightarrow> n + 1) else map_of t k)"
  unfolding bump_def by (simp add: update_conv')

lemma map_of_foldl_bump:
  "map_of (foldl bump t xs) k =
     (if k \<in> set xs
      then Some ((case map_of t k of None \<Rightarrow> 0 | Some n \<Rightarrow> n) + count_list xs k)
      else map_of t k)"
  by (induction xs arbitrary: t) (auto simp: map_of_bump split: option.splits)

lemma sorted_reverse_desc:
  "sorted_wrt (\<lambda>a b. key a \<ge> key b) (sorted_reverse key xs)"
proof -
  have "sorted (map key (sort_key key (rev xs)))"
    by (rule sorted_sort_key)
  then show ?thesis
    by (simp add: sorted_reverse_def sorted_wrt_rev sorted_map)
qed

lemma sorted_reverse_stable:
  "filter (\<lambda>x. key x = k) (sorted_reverse key xs) = filter (\<lambda>x. key x = k) xs"
proof -
  have "filter (\<lambda>x. key x = k) (sorted_reverse key xs) =
        rev (filter (\<lambda>x. key x = k) (sort_key key (rev xs)))"
    by (simp add: sorted_reverse_def rev_filter)
  also have "\<dots> = rev (filter (\<lambda>x. key x = k) (rev xs))"
    by (simp only: sort_key_stable)
  also have "\<dots> = filter (\<lambda>x. key x = k) xs"
    by (simp add: rev_filter)
  finally show ?thesis .
qed

lemma sorted_reverse_set: "set (sorted_reverse key xs) = set xs"
  by (simp add: sorted_reverse_def)

lemma sorted_reverse_length: "length (sorted_reverse key xs) = length xs"
  by (simp add: sorted_reverse_def)

lemma print_items_stdout:
  "print_items w items =
     w\<lparr>stdout := stdout w @ concat (map (\<lambda>item. hidden_line item @ [10]) items)\<rparr>"
  by (induction items arbitrary: w) (simp_all add: print_def)

section \<open>Properties of the two operations\<close>

lemma clean_text_file_not_found:
  "open_read w input_file = Inl FileNotFoundError \<Longrightarrow>
   clean_text_file input_file output_file w = (None, print w (not_found_message input_file))"
  by (simp add: clean_text_file_def clean_try_def)

lemma clean_text_file_read_error:
  "open_read w input_file = Inl (OSError m) \<Longrightarrow>
   clean_text_file input_file output_file w = (None, print w (lit ''Error: '' @ m))"
  by (simp add: clean_text_file_def clean_try_def)

lemma clean_text_file_ok:
  assumes "open_read w input_file = Inr content" and "write_fault w output_file = None"
  shows "clean_text_file input_file output_file w =
     (None, w\<lparr>files := (files w)(output_file \<mapsto> filter allowed content),
              stdout := stdout w @ clean_report (length content) (count_words content)
                 (length (filter allowed content)) (length (filter hidden content))
                 (count_words (filter allowed content)) output_file\<rparr>)"
  using assms
  by (simp add: clean_text_file_def clean_try_def clean_chars_filter open_write_def print_def
      clean_report_def hidden_iff [abs_def])

lemma clean_text_file_returns: "fst (clean_text_file input_file output_file w) = None"
  by (simp add: clean_text_file_def split: prod.splits option.splits os_error.splits)

lemma show_hidden_chars_not_found:
  "open_read w input_file = Inl FileNotFoundError \<Longrightarrow>
   show_hidden_chars input_file w = (None, print w (not_found_message input_file))"
  by (simp add: show_hidden_chars_def show_try_def)

lemma show_hidden_chars_read_error:
  "open_read w input_file = Inl (OSError m) \<Longrightarrow>
   show_hidden_chars input_file w = (Some (OS (OSError m)), w)"
  by (simp add: show_hidden_chars_def show_try_def)

lemma tally_chars_foldl:
  "tally_chars content =
     Inr (foldl bump [] (filter hidden content), length (filter hidden content))"
  by (simp add: tally_chars_def show_loop_foldl)

lemma foldl_bump_empty_iff: "foldl bump t xs = [] \<longleftrightarrow> t = [] \<and> xs = []"
  by (induction xs arbitrary: t) (simp_all add: bump_def)

lemma show_hidden_chars_found:
  assumes "open_read w input_file = Inr content" and "filter hidden content \<noteq> []"
  shows "show_hidden_chars input_file w =
     (None, w\<lparr>stdout := stdout w @ show_report
         (sorted_reverse snd (foldl bump [] (filter hidden content)))
         (length (filter hidden content)) (length content) (count_words content)\<rparr>)"
  using assms
  by (simp add: show_hidden_chars_def show_try_def tally_chars_foldl foldl_bump_empty_iff
      print_items_stdout print_def show_report_def)

lemma show_hidden_chars_clean:
  assumes "open_read w input_file = Inr content" and "filter hidden content = []"
  shows "show_hidden_chars input_file w =
     (None, w\<lparr>stdout := stdout w @ [10]
         @ lit ''No hidden characters found! Your file is clean'' @ [10]
         @ lit ''  Original Length: '' @ str_nat (length content) @ [10]
         @ lit ''  Number of Words: '' @ str_nat (count_words content) @ [10, 10]\<rparr>)"
  using assms
  by (simp add: show_hidden_chars_def show_try_def tally_chars_foldl
      print_def)

section \<open>The claims about the cleaning loop and the classification\<close>

text \<open>
  Claim C1. For every code point \<open>c\<close>, the test of the cleaning loop and the test of the
  tallying loop make the same decision, whatever the loop has collected so far: \<open>c\<close> is
  kept (and not tallied) exactly when \<open>32 \<le> c \<le> 126\<close> or \<open>c\<close> is one of 9, 10, 13, and it
  is counted as hidden (and tallied) otherwise. That is the classification of the
  specification; DEL (127), every code point from 127 on, and every control character
  below 32 other than 9, 10 and 13 are Hidden.
\<close>

theorem classification_of_both_loops:
  "clean_loop [c] (cleaned, n) =
     (if (32 \<le> c \<and> c \<le> 126) \<or> c \<in> {9, 10, 13} then (cleaned @ [c], n) else (cleaned, n + 1))
   \<and> show_loop [c] (t, n) =
     (if (32 \<le> c \<and> c \<le> 126) \<or> c \<in> {9, 10, 13} then Inr (t, n) else Inr (bump t c, n + 1))
   \<and> (classify c = Allowed \<longleftrightarrow> (32 \<le> c \<and> c \<le> 126) \<or> c \<in> {9, 10, 13})
   \<and> (classify c = Hidden \<longleftrightarrow> \<not> ((32 \<le> c \<and> c \<le> 126) \<or> c \<in> {9, 10, 13}))
   \<and> classify 127 = Hidden
   \<and> (127 \<le> c \<longrightarrow> classify c = Hidden)
   \<and> (c < 32 \<and> c \<notin> {9, 10, 13} \<longrightarrow> classify c = Hidden)"
  by (simp add: classify_def tally_char_bump)

text \<open>
  The classification at the zero width space (8203) and at the bell character (7).
\<close>

theorem classification_of_both_loops_witness:
  "(127::nat) \<le> 8203 \<and> classify 8203 = Hidden
   \<and> (7::nat) < 32 \<and> classify 7 = Hidden
   \<and> clean_loop [8203] (lit ''ab'', 0) = (lit ''ab'', 1)
   \<and> show_loop [8203] ([], 0) = Inr ([(8203, 1)], 1)"
  using classification_of_both_loops [of 8203 "lit ''ab''" 0 "[]"]
    classification_of_both_loops [of 7 "[]" 0 "[]"]
  by (simp add: bump_def)

text \<open>
  Claim C2. The text the cleaning loop builds is the input with exactly the Allowed
  characters kept, in their order (so it is a subsequence of the input), and the counter
  is the number of characters left out. The input \<open>hello\\u200bworld\\u200ctest\<close> gives
  \<open>helloworldtest\<close> and the count 2. When the input file can be read and the output file
  can be written, that text is what \<open>clean_text_file\<close> leaves in the output file.
\<close>

theorem clean_keeps_allowed_in_order:
  "fst (clean_chars content) = filter allowed content
   \<and> subseq (fst (clean_chars content)) content
   \<and> snd (clean_chars content) = length (filter hidden content)
   \<and> clean_chars (lit ''hello'' @ [8203] @ lit ''world'' @ [8204] @ lit ''test'')
       = (lit ''helloworldtest'', 2)
   \<and> (open_read w input_file = Inr content \<and> write_fault w output_file = None \<longrightarrow>
        files (snd (clean_text_file input_file output_file w)) output_file
          = Some (filter allowed content))"
proof -
  have "clean_chars (lit ''hello'' @ [8203] @ lit ''world'' @ [8204] @ lit ''test'')
       = (lit ''helloworldtest'', 2)"
    by (simp add: clean_chars_def lit_def)
  then show ?thesis
    by (simp add: clean_chars_filter clean_text_file_ok hidden_iff [abs_def])
qed

text \<open>
  A run on a file that holds \<open>a\\u200bb\<close>: the output file holds \<open>ab\<close>.
\<close>

theorem clean_keeps_allowed_in_order_witness:
  "open_read \<lparr>files = [lit ''in.txt'' \<mapsto> lit ''a'' @ [8203] @ lit ''b''],
       read_fault = Map.empty, write_fault = Map.empty, stdout = []\<rparr> (lit ''in.txt'')
     = Inr (lit ''a'' @ [8203] @ lit ''b'')
   \<and> write_fault \<lparr>files = [lit ''in.txt'' \<mapsto> lit ''a'' @ [8203] @ lit ''b''],
       read_fault = Map.empty, write_fault = Map.empty, stdout = []\<rparr> (lit ''out.txt'') = None
   \<and> files (snd (clean_text_file (lit ''in.txt'') (lit ''out.txt'')
        \<lparr>files = [lit ''in.txt'' \<mapsto> lit ''a'' @ [8203] @ lit ''b''],
         read_fault = Map.empty, write_fault = Map.empty, stdout = []\<rparr>)) (lit ''out.txt'')
     = Some (lit ''ab'')"
  using clean_keeps_allowed_in_order [of "lit ''a'' @ [8203] @ lit ''b''"
      "\<lparr>files = [lit ''in.txt'' \<mapsto> lit ''a'' @ [8203] @ lit ''b''],
        read_fault = Map.empty, write_fault = Map.empty, stdout = []\<rparr>"
      "lit ''in.txt''" "lit ''out.txt''"]
  by (simp add: open_read_def lit_def allowed_iff)

text \<open>
  Claim C3. The length of the cleaned text and the count of hidden characters add up to
  the length of the input; and when the operation reads and writes, the cleaned length
  and the removed count it prints add up to the original length it prints.
\<close>

theorem clean_lengths_add_up:
  "length (fst (clean_chars content)) + snd (clean_chars content) = length content
   \<and> (open_read w input_file = Inr content \<and> write_fault w output_file = None \<longrightarrow>
        (\<exists>cleaned_length hidden_removed cleaned_words.
           stdout (snd (clean_text_file input_file output_file w)) =
             stdout w @ clean_report (length content) (count_words content)
               cleaned_length hidden_removed cleaned_words output_file
           \<and> cleaned_length + hidden_removed = length content))"
proof -
  have sum: "length (filter allowed content) + length (filter hidden content) = length content"
    using sum_length_filter_compl [of allowed content] by (simp add: hidden_iff [abs_def])
  show ?thesis
  proof (intro conjI impI)
    show "length (fst (clean_chars content)) + snd (clean_chars content) = length content"
      using sum by (simp add: clean_chars_filter hidden_iff [abs_def])
  next
    assume "open_read w input_file = Inr content \<and> write_fault w output_file = None"
    then have "stdout (snd (clean_text_file input_file output_file w)) =
        stdout w @ clean_report (length content) (count_words content)
          (length (filter allowed content)) (length (filter hidden content))
          (count_words (filter allowed content)) output_file"
      by (simp add: clean_text_file_ok)
    with sum show "\<exists>cleaned_length hidden_removed cleaned_words.
           stdout (snd (clean_text_file input_file output_file w)) =
             stdout w @ clean_report (length content) (count_words content)
               cleaned_length hidden_removed cleaned_words output_file
           \<and> cleaned_length + hidden_removed = length content"
      by blast
  qed
qed

text \<open>
  A run on a file of two characters, one of them hidden.
\<close>

theorem clean_lengths_add_up_witness:
  "open_read \<lparr>files = [lit ''in.txt'' \<mapsto> [97, 8203]],
       read_fault = Map.empty, write_fault = Map.empty, stdout = []\<rparr> (lit ''in.txt'')
     = Inr [97, 8203]
   \<and> write_fault \<lparr>files = [lit ''in.txt'' \<mapsto> [97, 8203]],
       read_fault = Map.empty, write_fault = Map.empty, stdout = []\<rparr> (lit ''out.txt'') = None
   \<and> length (fst (clean_chars [97, 8203])) + snd (clean_chars [97, 8203])
       = length [97::nat, 8203]
   \<and> (\<exists>cleaned_length hidden_removed cleaned_words.
        stdout (snd (clean_text_file (lit ''in.txt'') (lit ''out.txt'')
          \<lparr>files = [lit ''in.txt'' \<mapsto> [97, 8203]],
           read_fault = Map.empty, write_fault = Map.empty, stdout = []\<rparr>)) =
          clean_report (length [97::nat, 8203]) (count_words [97, 8203])
            cleaned_length hidden_removed cleaned_words (lit ''out.txt'')
        \<and> cleaned_length + hidden_removed = length [97::nat, 8203])"
  using clean_lengths_add_up [of "[97, 8203]"
      "\<lparr>files = [lit ''in.txt'' \<mapsto> [97, 8203]],
        read_fault = Map.empty, write_fault = Map.empty, stdout = []\<rparr>"
      "lit ''in.txt''" "lit ''out.txt''"]
  by (simp add: open_read_def lit_def)

text \<open>
  Claim C6. On an input in which every character is Allowed, the cleaning loop returns
  the input itself and the count 0; and when the operation reads and writes, the output
  file holds the input text.
\<close>

theorem clean_of_clean_input_is_identity:
  assumes "\<forall>c \<in> set content. (32 \<le> c \<and> c \<le> 126) \<or> c \<in> {9, 10, 13}"
  shows "clean_chars content = (content, 0)
   \<and> (open_read w input_file = Inr content \<and> write_fault w output_file = None \<longrightarrow>
        files (snd (clean_text_file input_file output_file w)) output_file = Some content)"
proof -
  from assms have ok: "\<forall>c \<in> set content. allowed c"
    by (simp add: allowed_iff)
  then have a: "filter allowed content = content"
    by (rule filter_True)
  from ok have "\<forall>c \<in> set content. \<not> hidden c"
    by (simp add: hidden_iff)
  then have h: "filter hidden content = []"
    by (simp only: filter_empty_conv)
  show ?thesis
    using a h by (simp add: clean_chars_filter clean_text_file_ok hidden_iff [abs_def])
qed

text \<open>
  The text \<open>hello world\<close> followed by a tab, a line feed and a carriage return is clean.
\<close>

theorem clean_of_clean_input_is_identity_witness:
  "(\<forall>c \<in> set (lit ''hello world'' @ [9, 10, 13]). (32 \<le> c \<and> c \<le> 126) \<or> c \<in> {9, 10, 13}) = True
   \<and> clean_chars (lit ''hello world'' @ [9, 10, 13]) = (lit ''hello world'' @ [9, 10, 13], 0)"
proof -
  have h: "\<forall>c \<in> set (lit ''hello world'' @ [9, 10, 13]). (32 \<le> c \<and> c \<le> 126) \<or> c \<in> {9, 10, 13}"
    by (simp add: lit_def)
  from clean_of_clean_input_is_identity [OF h] h show ?thesis by simp
qed

text \<open>
  Claim C10. For every input, each character of the cleaned text is Allowed, and cleaning
  the cleaned text again returns it unchanged with the count 0.
\<close>

theorem clean_output_allowed_and_idempotent:
  "(\<forall>c \<in> set (fst (clean_chars content)). (32 \<le> c \<and> c \<le> 126) \<or> c \<in> {9, 10, 13})
   \<and> clean_chars (fst (clean_chars content)) = (fst (clean_chars content), 0)"
proof
  show "\<forall>c \<in> set (fst (clean_chars content)). (32 \<le> c \<and> c \<le> 126) \<or> c \<in> {9, 10, 13}"
    by (simp add: clean_chars_filter allowed_iff)
next
  have "filter allowed (filter allowed content) = filter allowed content"
    by simp
  moreover have "filter (\<lambda>c. \<not> allowed c) (filter allowed content) = []"
    by (simp add: filter_empty_conv)
  ultimately show "clean_chars (fst (clean_chars content)) = (fst (clean_chars content), 0)"
    by (simp only: clean_chars_filter fst_conv list.size)
qed

text \<open>
  An input with four hidden characters: the three that remain are Allowed, and a second
  pass keeps all three.
\<close>

theorem clean_output_allowed_and_idempotent_witness:
  "fst (clean_chars [7, 104, 8203, 105, 127, 10]) = [104, 105, 10]
   \<and> list_all (\<lambda>c::nat. (32 \<le> c \<and> c \<le> 126) \<or> c \<in> {9, 10, 13}) [104, 105, 10]
   \<and> clean_chars [104, 105, 10] = ([104, 105, 10], 0)"
proof -
  have e: "fst (clean_chars [7, 104, 8203, 105, 127, 10]) = [104, 105, 10]"
    by (simp add: clean_chars_def)
  from clean_output_allowed_and_idempotent [of "[7, 104, 8203, 105, 127, 10]"] e
  show ?thesis by simp
qed

section \<open>The claims about errors and about the tally\<close>

lemma count_list_filter:
  "count_list (filter P xs) c = (if P c then count_list xs c else 0)"
  by (induction xs) auto

text \<open>
  Claim C5. When opening the input file raises \<open>FileNotFoundError\<close>, both operations
  return normally: each prints the one line \<open>Error: File '<input_file>' not found!\<close> with
  the path as it was given, and changes nothing else. In particular \<open>clean_text_file\<close>
  leaves every file as it was: the output file is opened only after the read.
\<close>

theorem missing_input_is_reported:
  assumes "open_read w input_file = Inl FileNotFoundError"
  shows "clean_text_file input_file output_file w =
           (None, w\<lparr>stdout := stdout w @ lit ''Error: File '' @ [39] @ input_file @ [39]
                        @ lit '' not found!'' @ [10]\<rparr>)
   \<and> show_hidden_chars input_file w =
           (None, w\<lparr>stdout := stdout w @ lit ''Error: File '' @ [39] @ input_file @ [39]
                        @ lit '' not found!'' @ [10]\<rparr>)
   \<and> files (snd (clean_text_file input_file output_file w)) = files w
   \<and> files (snd (show_hidden_chars input_file w)) = files w"
  using assms
  by (simp add: clean_text_file_not_found show_hidden_chars_not_found print_def
      not_found_message_def)

text \<open>
  A run of both operations on \<open>nonexistent.txt\<close> in an empty directory.
\<close>

theorem missing_input_is_reported_witness:
  "open_read \<lparr>files = Map.empty, read_fault = Map.empty, write_fault = Map.empty,
       stdout = []\<rparr> (lit ''nonexistent.txt'') = Inl FileNotFoundError
   \<and> clean_text_file (lit ''nonexistent.txt'') (lit ''out.txt'')
       \<lparr>files = Map.empty, read_fault = Map.empty, write_fault = Map.empty, stdout = []\<rparr>
     = (None, \<lparr>files = Map.empty, read_fault = Map.empty, write_fault = Map.empty,
          stdout = lit ''Error: File '' @ [39] @ lit ''nonexistent.txt'' @ [39]
            @ lit '' not found!'' @ [10]\<rparr>)
   \<and> show_hidden_chars (lit ''nonexistent.txt'')
       \<lparr>files = Map.empty, read_fault = Map.empty, write_fault = Map.empty, stdout = []\<rparr>
     = (None, \<lparr>files = Map.empty, read_fault = Map.empty, write_fault = Map.empty,
          stdout = lit ''Error: File '' @ [39] @ lit ''nonexistent.txt'' @ [39]
            @ lit '' not found!'' @ [10]\<rparr>)"
proof -
  have h: "open_read \<lparr>files = Map.empty, read_fault = Map.empty, write_fault = Map.empty,
       stdout = []\<rparr> (lit ''nonexistent.txt'') = Inl FileNotFoundError"
    by (simp add: open_read_def)
  from missing_input_is_reported [OF h, of "lit ''out.txt''"] h show ?thesis
    by simp
qed

text \<open>
  Claim C4. The claim holds for \<open>clean_text_file\<close> (see \<open>clean_text_file_returns\<close>), whose
  second handler catches every \<open>Exception\<close>. \<open>show_hidden_chars\<close> has the first handler
  only: on a path that is a directory, \<open>open\<close> raises \<open>IsADirectoryError\<close>, which leaves
  the function with nothing printed, where \<open>clean_text_file\<close> on the same path prints the
  error and returns.
\<close>

theorem show_hidden_chars_lets_os_error_escape:
  "show_hidden_chars (lit ''dir'')
     \<lparr>files = Map.empty,
      read_fault = [lit ''dir'' \<mapsto> OSError (lit ''[Errno 21] Is a directory'')],
      write_fault = Map.empty, stdout = []\<rparr>
   = (Some (OS (OSError (lit ''[Errno 21] Is a directory''))),
      \<lparr>files = Map.empty,
       read_fault = [lit ''dir'' \<mapsto> OSError (lit ''[Errno 21] Is a directory'')],
       write_fault = Map.empty, stdout = []\<rparr>)
   \<and> clean_text_file (lit ''dir'') (lit ''out.txt'')
     \<lparr>files = Map.empty,
      read_fault = [lit ''dir'' \<mapsto> OSError (lit ''[Errno 21] Is a directory'')],
      write_fault = Map.empty, stdout = []\<rparr>
   = (None,
      \<lparr>files = Map.empty,
       read_fault = [lit ''dir'' \<mapsto> OSError (lit ''[Errno 21] Is a directory'')],
       write_fault = Map.empty,
       stdout = lit ''Error: '' @ lit ''[Errno 21] Is a directory'' @ [10]\<rparr>)"
  by (simp add: show_hidden_chars_def show_try_def clean_text_file_def clean_try_def
      open_read_def print_def)

text \<open>
  Claim C7. For every input the tallying loop ends without a \<open>KeyError\<close>; the dictionary
  it returns has no key twice, its keys are exactly the hidden characters of the input,
  each entry holds the number of occurrences of its character, and the counts add up to
  the running total, which is the number of hidden characters of the input.
\<close>

theorem tally_has_one_entry_per_hidden_character:
  "\<exists>hidden_chars total_hidden.
     tally_chars content = Inr (hidden_chars, total_hidden)
     \<and> distinct (map fst hidden_chars)
     \<and> set (map fst hidden_chars) = set (filter hidden content)
     \<and> (\<forall>c. map_of hidden_chars c =
            (if c \<in> set content \<and> hidden c then Some (count_list content c) else None))
     \<and> sum_list (map snd hidden_chars) = total_hidden
     \<and> total_hidden = length (filter hidden content)"
proof -
  let ?t = "foldl bump [] (filter hidden content)"
  have keys: "map fst ?t = first_seen (filter hidden content)"
    using keys_foldl_bump [of "[]" "filter hidden content"] by simp
  have "distinct (map fst ?t)"
    by (rule distinct_foldl_bump) simp
  moreover have "set (map fst ?t) = set (filter hidden content)"
    unfolding keys by (simp add: first_seen_def)
  moreover have "\<forall>c. map_of ?t c =
      (if c \<in> set content \<and> hidden c then Some (count_list content c) else None)"
    by (simp add: map_of_foldl_bump count_list_filter)
  moreover have "sum_list (map snd ?t) = length (filter hidden content)"
    by (simp add: sum_foldl_bump)
  ultimately show ?thesis
    by (simp add: tally_chars_foldl)
qed

section \<open>The claim about the order of the report\<close>

text \<open>
  Claim C8. When the input holds at least one hidden character, \<open>show_hidden_chars\<close>
  prints the heading, one line for each entry of the dictionary, the line with the total,
  and the two closing lines, in that order. The entries are printed by count, largest
  first; entries of equal count are printed in the order the dictionary holds them, which
  is the order in which their characters occur first in the input. Every entry is printed
  once.
\<close>

theorem hidden_lines_sorted_by_count_descending:
  assumes "open_read w input_file = Inr content"
    and "\<exists>c \<in> set content. \<not> ((32 \<le> c \<and> c \<le> 126) \<or> c \<in> {9, 10, 13})"
  shows "\<exists>hidden_chars total_hidden items.
     tally_chars content = Inr (hidden_chars, total_hidden)
     \<and> items = sorted_reverse snd hidden_chars
     \<and> show_hidden_chars input_file w =
         (None, w\<lparr>stdout := stdout w
            @ [10] @ lit ''Invisible characters found:'' @ [10]
            @ concat (map (\<lambda>item. hidden_line item @ [10]) items)
            @ lit '' Total Invisible Characters: '' @ str_nat total_hidden
            @ lit '' characters'' @ [10]
            @ lit ''  Original Length: '' @ str_nat (length content) @ [10]
            @ lit ''  Number of Words: '' @ str_nat (count_words content) @ [10, 10]\<rparr>)
     \<and> sorted_wrt (\<lambda>a b. snd a \<ge> snd b) items
     \<and> (\<forall>k. filter (\<lambda>item. snd item = k) items = filter (\<lambda>item. snd item = k) hidden_chars)
     \<and> map fst hidden_chars = first_seen (filter hidden content)
     \<and> set items = set hidden_chars \<and> length items = length hidden_chars"
proof -
  let ?t = "foldl bump [] (filter hidden content)"
  from assms(2) have ne: "filter hidden content \<noteq> []"
    by (auto simp: filter_empty_conv hidden_iff allowed_iff)
  have keys: "map fst ?t = first_seen (filter hidden content)"
    using keys_foldl_bump [of "[]" "filter hidden content"] by simp
  have run: "show_hidden_chars input_file w =
     (None, w\<lparr>stdout := stdout w @ show_report (sorted_reverse snd ?t)
         (length (filter hidden content)) (length content) (count_words content)\<rparr>)"
    using assms(1) ne by (rule show_hidden_chars_found)
  show ?thesis
    using run keys
    by (simp add: tally_chars_foldl show_report_def sorted_reverse_desc sorted_reverse_stable
        sorted_reverse_set sorted_reverse_length)
qed

text \<open>
  A file with a bell, two zero width spaces and a no-break space: the zero width space
  comes first with its count 2, then the bell and the no-break space, both of count 1, in
  the order of their first occurrence.
\<close>

theorem hidden_lines_sorted_by_count_descending_witness:
  "open_read \<lparr>files = [lit ''in.txt'' \<mapsto> [7, 8203, 8203, 160]], read_fault = Map.empty,
       write_fault = Map.empty, stdout = []\<rparr> (lit ''in.txt'') = Inr [7, 8203, 8203, 160]
   \<and> (\<exists>c \<in> set [7, 8203, 8203, 160::nat]. \<not> ((32 \<le> c \<and> c \<le> 126) \<or> c \<in> {9, 10, 13}))
   \<and> tally_chars [7, 8203, 8203, 160] = Inr ([(7, 1), (8203, 2), (160, 1)], 4)
   \<and> sorted_reverse snd [(7, 1), (8203, 2), (160, 1::nat)] = [(8203::nat, 2), (7, 1), (160, 1)]
   \<and> stdout (snd (show_hidden_chars (lit ''in.txt'')
        \<lparr>files = [lit ''in.txt'' \<mapsto> [7, 8203, 8203, 160]], read_fault = Map.empty,
         write_fault = Map.empty, stdout = []\<rparr>))
      = [10] @ lit ''Invisible characters found:'' @ [10]
        @ hidden_line (8203, 2) @ [10] @ hidden_line (7, 1) @ [10] @ hidden_line (160, 1) @ [10]
        @ lit '' Total Invisible Characters: '' @ str_nat 4 @ lit '' characters'' @ [10]
        @ lit ''  Original Length: '' @ str_nat (length [7, 8203, 8203, 160::nat]) @ [10]
        @ lit ''  Number of Words: '' @ str_nat (count_words [7, 8203, 8203, 160]) @ [10, 10]"
proof -
  let ?w = "\<lparr>files = [lit ''in.txt'' \<mapsto> [7, 8203, 8203, 160]], read_fault = Map.empty,
       write_fault = Map.empty, stdout = []\<rparr>"
  have h1: "open_read ?w (lit ''in.txt'') = Inr [7, 8203, 8203, 160]"
    by (simp add: open_read_def)
  have h2: "\<exists>c \<in> set [7, 8203, 8203, 160::nat]. \<not> ((32 \<le> c \<and> c \<le> 126) \<or> c \<in> {9, 10, 13})"
    by simp
  have t: "tally_chars [7, 8203, 8203, 160] = Inr ([(7, 1), (8203, 2), (160, 1)], 4)"
    by (simp add: tally_chars_def tally_char_bump bump_def)
  have s: "sorted_reverse snd [(7, 1), (8203, 2), (160, 1::nat)] = [(8203::nat, 2), (7, 1), (160, 1)]"
    by (simp add: sorted_reverse_def)
  from hidden_lines_sorted_by_count_descending [OF h1 h2] t s h1 h2 show ?thesis
    by auto
qed

section \<open>The claim about counting words\<close>

lemma str_split_Nil: "str_split [] = []"
  by (simp add: str_split.simps)

lemma str_split_space: "isspace c \<Longrightarrow> str_split (c # s) = str_split s"
  by (simp add: str_split.simps [of "c # s"] str_split.simps [of s])

lemma str_split_word:
  "\<not> isspace c \<Longrightarrow>
   str_split (c # s) =
     (c # takeWhile (\<lambda>x. \<not> isspace x) s) # str_split (dropWhile (\<lambda>x. \<not> isspace x) s)"
  by (simp add: str_split.simps [of "c # s"])

lemma str_split_blank: "dropWhile isspace s = [] \<Longrightarrow> str_split s = []"
  by (subst str_split.simps) (simp del: dropWhile_eq_Nil_conv)

lemma str_split_Cons:
  "dropWhile isspace s = c # rest \<Longrightarrow>
   str_split s =
     (c # takeWhile (\<lambda>x. \<not> isspace x) rest) # str_split (dropWhile (\<lambda>x. \<not> isspace x) rest)"
  by (subst str_split.simps) simp

lemma word_starts_all_spaces: "\<forall>c \<in> set s. isspace c \<Longrightarrow> word_starts b s = 0"
  by (induction s arbitrary: b) simp_all

lemma word_starts_skip_spaces: "word_starts True s = word_starts True (dropWhile isspace s)"
  by (induction s) simp_all

lemma word_starts_skip_word:
  "word_starts False s = word_starts True (dropWhile (\<lambda>x. \<not> isspace x) s)"
  by (induction s) simp_all

lemma length_str_split: "length (str_split s) = word_starts True s"
proof (induction s rule: str_split.induct)
  case (1 s)
  show ?case
  proof (cases "dropWhile isspace s")
    case Nil
    then have "word_starts True s = 0"
      by (simp add: word_starts_all_spaces)
    with str_split_blank [OF Nil] show ?thesis
      by simp
  next
    case (Cons c rest)
    then have c: "\<not> isspace c"
      using hd_dropWhile [of isspace s] by simp
    have "length (str_split s) = Suc (length (str_split (dropWhile (\<lambda>x. \<not> isspace x) rest)))"
      by (simp add: str_split_Cons [OF Cons])
    also have "\<dots> = Suc (word_starts True (dropWhile (\<lambda>x. \<not> isspace x) rest))"
      using "1.IH" [OF Cons] by simp
    also have "\<dots> = word_starts True (c # rest)"
      using c by (simp add: word_starts_skip_word)
    also have "\<dots> = word_starts True s"
      using Cons word_starts_skip_spaces [of s] by simp
    finally show ?thesis .
  qed
qed

lemma count_words_starts: "count_words s = word_starts True s"
  by (simp add: count_words_def length_str_split)

lemma word_starts_spaces:
  "ws \<noteq> [] \<Longrightarrow> \<forall>c \<in> set ws. isspace c \<Longrightarrow> word_starts b (ws @ v) = word_starts True v"
proof (induction ws arbitrary: b)
  case Nil
  then show ?case by simp
next
  case (Cons c ws)
  then show ?case by (cases ws) simp_all
qed

lemma word_starts_append_cong:
  "(\<And>b. word_starts b x = word_starts b y) \<Longrightarrow> word_starts b (u @ x) = word_starts b (u @ y)"
  by (induction u arbitrary: b) simp_all

lemma str_split_words:
  "word \<in> set (str_split s) \<Longrightarrow> word \<noteq> [] \<and> (\<forall>c \<in> set word. \<not> isspace c)"
proof (induction s rule: str_split.induct)
  case (1 s)
  show ?case
  proof (cases "dropWhile isspace s")
    case Nil
    with "1.prems" str_split_blank [OF Nil] show ?thesis
      by simp
  next
    case (Cons c rest)
    then have c: "\<not> isspace c"
      using hd_dropWhile [of isspace s] by simp
    from "1.prems" Cons
    consider "word = c # takeWhile (\<lambda>x. \<not> isspace x) rest"
      | "word \<in> set (str_split (dropWhile (\<lambda>x. \<not> isspace x) rest))"
      by (auto simp: str_split_Cons [OF Cons])
    then show ?thesis
    proof cases
      case 1
      with c show ?thesis
        by (auto dest: set_takeWhileD)
    next
      case 2
      then show ?thesis
        by (rule "1.IH" [OF Cons])
    qed
  qed
qed

lemma filter_takeWhile_dropWhile: "takeWhile P xs @ filter P (dropWhile P xs) = filter P xs"
  by (induction xs) simp_all

lemma filter_dropWhile_not:
  "filter (\<lambda>x. \<not> P x) (dropWhile P xs) = filter (\<lambda>x. \<not> P x) xs"
  by (induction xs) simp_all

lemma concat_str_split: "concat (str_split s) = filter (\<lambda>c. \<not> isspace c) s"
proof (induction s rule: str_split.induct)
  case (1 s)
  show ?case
  proof (cases "dropWhile isspace s")
    case Nil
    then have "filter (\<lambda>c. \<not> isspace c) s = []"
      by (simp add: filter_empty_conv)
    with str_split_blank [OF Nil] show ?thesis
      by simp
  next
    case (Cons c rest)
    then have c: "\<not> isspace c"
      using hd_dropWhile [of isspace s] by simp
    have "concat (str_split s) =
        c # takeWhile (\<lambda>x. \<not> isspace x) rest
          @ filter (\<lambda>c. \<not> isspace c) (dropWhile (\<lambda>x. \<not> isspace x) rest)"
      using "1.IH" [OF Cons] by (simp add: str_split_Cons [OF Cons])
    also have "\<dots> = c # filter (\<lambda>c. \<not> isspace c) rest"
      by (simp only: filter_takeWhile_dropWhile)
    also have "\<dots> = filter (\<lambda>c. \<not> isspace c) (c # rest)"
      using c by simp
    also have "\<dots> = filter (\<lambda>c. \<not> isspace c) s"
      using Cons filter_dropWhile_not [of isspace s] by simp
    finally show ?thesis .
  qed
qed

text \<open>
  Claim C9. \<open>count_words\<close> gives 0 on the empty string, 1 on \<open>a\<close>, 2 on \<open>a   b\<close> and 3 on
  \<open>a\\nb\\tc\<close>. A string of whitespace only has no word. A run of whitespace counts as one
  separator however long it is: replacing one run by another, anywhere in a text, leaves
  the count as it is. No word of the split is empty or holds whitespace, the words
  together are the characters of the text that are not whitespace, and their number is
  the number of maximal runs of such characters.
\<close>

theorem count_words_counts_runs:
  "count_words [] = 0
   \<and> count_words (lit ''a'') = 1
   \<and> count_words (lit ''a   b'') = 2
   \<and> count_words (lit ''a'' @ [10] @ lit ''b'' @ [9] @ lit ''c'') = 3
   \<and> ((\<forall>c \<in> set s. isspace c) \<longrightarrow> count_words s = 0)
   \<and> (ws \<noteq> [] \<and> (\<forall>c \<in> set ws. isspace c) \<and> ws' \<noteq> [] \<and> (\<forall>c \<in> set ws'. isspace c) \<longrightarrow>
        count_words (u @ ws @ v) = count_words (u @ ws' @ v))
   \<and> (\<forall>word \<in> set (str_split s). word \<noteq> [] \<and> (\<forall>c \<in> set word. \<not> isspace c))
   \<and> concat (str_split s) = filter (\<lambda>c. \<not> isspace c) s
   \<and> count_words s = word_starts True s"
proof -
  have e1: "count_words [] = 0"
    by (simp add: count_words_starts)
  have e2: "count_words (lit ''a'') = 1"
    by (simp add: count_words_starts lit_def isspace_def)
  have e3: "count_words (lit ''a   b'') = 2"
    by (simp add: count_words_starts lit_def isspace_def)
  have e4: "count_words (lit ''a'' @ [10] @ lit ''b'' @ [9] @ lit ''c'') = 3"
    by (simp add: count_words_starts lit_def isspace_def)
  have blank: "(\<forall>c \<in> set s. isspace c) \<longrightarrow> count_words s = 0"
    by (simp add: count_words_starts word_starts_all_spaces)
  have collapse: "ws \<noteq> [] \<and> (\<forall>c \<in> set ws. isspace c) \<and> ws' \<noteq> [] \<and> (\<forall>c \<in> set ws'. isspace c) \<longrightarrow>
        count_words (u @ ws @ v) = count_words (u @ ws' @ v)"
  proof
    assume a: "ws \<noteq> [] \<and> (\<forall>c \<in> set ws. isspace c) \<and> ws' \<noteq> [] \<and> (\<forall>c \<in> set ws'. isspace c)"
    have "word_starts b (ws @ v) = word_starts b (ws' @ v)" for b
      using a by (simp add: word_starts_spaces)
    then have "word_starts True (u @ ws @ v) = word_starts True (u @ ws' @ v)"
      by (rule word_starts_append_cong)
    then show "count_words (u @ ws @ v) = count_words (u @ ws' @ v)"
      by (simp only: count_words_starts)
  qed
  have words: "\<forall>word \<in> set (str_split s). word \<noteq> [] \<and> (\<forall>c \<in> set word. \<not> isspace c)"
    using str_split_words by blast
  from e1 e2 e3 e4 blank collapse words concat_str_split [of s] count_words_starts [of s]
  show ?thesis
    by (intro conjI)
qed

text \<open>
  Five whitespace characters make no word; \<open>hello\<close> and \<open>world\<close> are two words whether
  one separator stands between them or four; and \<open> a  b \<close> splits into \<open>a\<close> and \<open>b\<close>.
\<close>

theorem count_words_counts_runs_witness:
  "(\<forall>c \<in> set [32, 9, 10, 13, 160::nat]. isspace c) = True
   \<and> count_words [32, 9, 10, 13, 160] = 0
   \<and> count_words (lit ''hello'' @ [32, 32, 9, 10] @ lit ''world'')
       = count_words (lit ''hello'' @ [32] @ lit ''world'')
   \<and> list_all (\<lambda>word. word \<noteq> [] \<and> list_all (\<lambda>c. \<not> isspace c) word)
        (str_split (lit '' a  b ''))
   \<and> str_split (lit '' a  b '') = [lit ''a'', lit ''b'']"
proof -
  have h1: "\<forall>c \<in> set [32, 9, 10, 13, 160::nat]. isspace c"
    by (simp add: isspace_def)
  have h2: "[32, 32, 9, 10::nat] \<noteq> [] \<and> (\<forall>c \<in> set [32, 32, 9, 10::nat]. isspace c)
      \<and> [32::nat] \<noteq> [] \<and> (\<forall>c \<in> set [32::nat]. isspace c)"
    by (simp add: isspace_def)
  have s: "str_split (lit '' a  b '') = [lit ''a'', lit ''b'']"
    by (simp add: lit_def str_split_space str_split_word str_split_Nil isspace_def)
  from count_words_counts_runs [of "[32, 9, 10, 13, 160]" "[32, 32, 9, 10]" "[32]"
      "lit ''hello''" "lit ''world''"] h1 h2
  have a: "count_words [32, 9, 10, 13, 160] = 0"
    and b: "count_words (lit ''hello'' @ [32, 32, 9, 10] @ lit ''world'')
       = count_words (lit ''hello'' @ [32] @ lit ''world'')"
    by blast+
  from count_words_counts_runs [of "lit '' a  b ''"]
  have c: "\<forall>word \<in> set (str_split (lit '' a  b '')). word \<noteq> [] \<and> (\<forall>c \<in> set word. \<not> isspace c)"
    by blast
  from a b c h1 s show ?thesis
    by (simp add: list_all_iff)
qed

end
